theory Spec2Isabelle
  imports Complex_Main "HOL-Library.AList" "HOL-Library.List_Lexorder"
begin

section \<open>Python strings\<close>

text \<open>
  A Python \<open>str\<close> is a sequence of Unicode code points, so a character is modelled by
  its code point (a natural number) and a string by the list of its code points.
  \<open>str\<close> turns an ASCII literal into such a string.
\<close>

type_synonym pystr = "nat list"

definition str :: "string \<Rightarrow> pystr" where
  "str s = map of_char s"

text \<open>\<open>s.endswith(suffix)\<close>\<close>

definition endswith :: "pystr \<Rightarrow> pystr \<Rightarrow> bool" where
  "endswith s suf = (length suf \<le> length s \<and> drop (length s - length suf) s = suf)"

text \<open>\<open>s.startswith(prefix)\<close>\<close>

definition startswith :: "pystr \<Rightarrow> pystr \<Rightarrow> bool" where
  "startswith s pre = (take (length pre) s = pre)"

text \<open>
  \<open>s.replace(old, new)\<close>: every non-overlapping occurrence of \<open>old\<close>, found from left
  to right, is replaced by \<open>new\<close>. With an empty \<open>old\<close>, Python puts \<open>new\<close> before every
  character and at the end.
\<close>

function py_replace :: "pystr \<Rightarrow> pystr \<Rightarrow> pystr \<Rightarrow> pystr" where
  "py_replace old new s =
     (if old = [] then new @ concat (map (\<lambda>c. c # new) s)
      else if s = [] then []
      else if take (length old) s = old then new @ py_replace old new (drop (length old) s)
      else hd s # py_replace old new (tl s))"
  by pat_completeness auto
termination
  by (relation "measure (\<lambda>(old, new, s). length s)") auto

declare py_replace.simps [simp del]

text \<open>\<open>sub in s\<close> for strings: \<open>sub\<close> occurs as a contiguous substring.\<close>

fun contains :: "pystr \<Rightarrow> pystr \<Rightarrow> bool" where
  "contains sub [] = (sub = [])"
| "contains sub (c # cs) = (take (length sub) (c # cs) = sub \<or> contains sub cs)"

text \<open>\<open>s.strip(chars)\<close>: drops from both ends the characters that occur in \<open>chars\<close>.\<close>

definition strip_chars :: "pystr \<Rightarrow> pystr \<Rightarrow> pystr" where
  "strip_chars chars s =
     rev (dropWhile (\<lambda>c. c \<in> set chars) (rev (dropWhile (\<lambda>c. c \<in> set chars) s)))"

text \<open>
  \<open>c.isascii()\<close> and, for an ASCII character, \<open>c.isalnum()\<close>. The source only asks
  \<open>isalnum\<close> of characters that passed \<open>isascii\<close> (the \<open>and\<close> short-circuits).
\<close>

definition isascii :: "nat \<Rightarrow> bool" where
  "isascii c = (c < 128)"

definition ascii_isalnum :: "nat \<Rightarrow> bool" where
  "ascii_isalnum c = ((48 \<le> c \<and> c \<le> 57) \<or> (65 \<le> c \<and> c \<le> 90) \<or> (97 \<le> c \<and> c \<le> 122))"

text \<open>
  \<open>s.lower()\<close> on the ASCII letters. The sanitizers apply it to strings of ASCII
  letters, digits and underscores only (lemma \<open>keep_ascii_chars\<close> below), where
  Python's \<open>lower\<close> does exactly this.
\<close>

definition lower_char :: "nat \<Rightarrow> nat" where
  "lower_char c = (if 65 \<le> c \<and> c \<le> 90 then c + 32 else c)"

definition lower :: "pystr \<Rightarrow> pystr" where
  "lower s = map lower_char s"

text \<open>\<open>ord\<close> of a character literal.\<close>

definition ord :: "char \<Rightarrow> nat" where
  "ord c = of_char c"

lemma py_replace_length:
  "old \<noteq> [] \<Longrightarrow> length new \<le> length old \<Longrightarrow> length (py_replace old new s) \<le> length s"
proof (induction old new s rule: py_replace.induct)
  case (1 old new s)
  show ?case
  proof (cases "s = []")
    case True
    then show ?thesis using 1(3) by (simp add: py_replace.simps)
  next
    case ne: False
    show ?thesis
    proof (cases "take (length old) s = old")
      case True
      then have "length (take (length old) s) = length old" by simp
      then have len: "length old \<le> length s" by simp
      have "length (py_replace old new (drop (length old) s)) \<le> length s - length old"
        using 1(1) [OF 1(3) ne True 1(3) 1(4)] by simp
      then show ?thesis
        using True ne 1(3) 1(4) len by (subst py_replace.simps) simp
    next
      case False
      have "length (py_replace old new (tl s)) \<le> length s - 1"
        using 1(2) [OF 1(3) ne False 1(3) 1(4)] by simp
      then show ?thesis
        using False ne 1(3) by (subst py_replace.simps) (cases s, simp_all)
    qed
  qed
qed

lemma py_replace_shrinks:
  "old \<noteq> [] \<Longrightarrow> length new < length old \<Longrightarrow> contains old s
     \<Longrightarrow> length (py_replace old new s) < length s"
proof (induction old new s rule: py_replace.induct)
  case (1 old new s)
  have ne: "s \<noteq> []" using 1(3,5) by (cases s) auto
  show ?case
  proof (cases "take (length old) s = old")
    case True
    then have "length (take (length old) s) = length old" by simp
    then have len: "length old \<le> length s" by simp
    have "length (py_replace old new (drop (length old) s)) \<le> length s - length old"
      using py_replace_length [of old new "drop (length old) s"] 1(3,4) by simp
    then show ?thesis
      using True ne 1(3) 1(4) len by (subst py_replace.simps) simp
  next
    case False
    then have "contains old (tl s)" using 1(5) ne by (cases s) auto
    then have "length (py_replace old new (tl s)) < length (tl s)"
      using 1(2) [OF 1(3) ne False 1(3) 1(4)] by simp
    then show ?thesis
      using False ne 1(3) by (subst py_replace.simps) (cases s, simp_all)
  qed
qed

section \<open>Identifier sanitizer (transform_to_pinecone_format.py)\<close>

text \<open>The loop \<open>while '__' in clean: clean = clean.replace('__', '_')\<close>.\<close>

function collapse_underscores :: "pystr \<Rightarrow> pystr" where
  "collapse_underscores clean =
     (if contains (str ''__'') clean
      then collapse_underscores (py_replace (str ''__'') (str ''_'') clean)
      else clean)"
  by pat_completeness auto
termination
  by (relation "measure length") (auto simp: py_replace_shrinks str_def)

declare collapse_underscores.simps [simp del]

text \<open>The text with a trailing \<open>.pdf\<close> cut off (\<open>text[:-4]\<close>), when it ends so.\<close>

definition remove_extension :: "pystr \<Rightarrow> pystr" where
  "remove_extension text =
     (if endswith text (str ''.pdf'') then take (length text - 4) text else text)"

text \<open>The two chained \<open>replace\<close> lines of \<open>sanitize_id\<close>.\<close>

definition replace_special :: "pystr \<Rightarrow> pystr" where
  "replace_special text =
     (let clean = py_replace (str '')'') []
                    (py_replace (str ''('') []
                      (py_replace (str '' '') (str ''_'') text))
      in py_replace (str ''-'') (str ''_'')
           (py_replace (str '']'') []
             (py_replace (str ''['') [] clean)))"

text \<open>The generator expression that keeps ASCII letters, digits and underscores.\<close>

definition keep_ascii :: "pystr \<Rightarrow> pystr" where
  "keep_ascii clean =
     map (\<lambda>c. if isascii c \<and> (ascii_isalnum c \<or> c = ord CHR ''_'') then c
              else ord CHR ''_'') clean"

definition sanitize_id :: "pystr \<Rightarrow> pystr" where
  "sanitize_id text =
     lower (strip_chars (str ''_'')
       (collapse_underscores (keep_ascii (replace_special (remove_extension text)))))"

section \<open>Identifier sanitizer (upsert_to_pinecone.py)\<close>

text \<open>
  \<open>sanitize_pdf_id\<close> starts from \<open>Path(filename).stem\<close>, a function of the standard
  library; it is the parameter \<open>stem\<close> here.
\<close>

definition sanitize_pdf_id :: "(pystr \<Rightarrow> pystr) \<Rightarrow> pystr \<Rightarrow> pystr" where
  "sanitize_pdf_id stem filename =
     (let base = stem filename;
          clean = py_replace (str '']'') []
                    (py_replace (str ''['') []
                      (py_replace (str '')'') []
                        (py_replace (str ''('') [] base)));
          clean = map (\<lambda>c. if isascii c \<and> (ascii_isalnum c \<or> c \<in> set (str ''_- '')) then c
                           else ord CHR ''_'') clean;
          clean = py_replace (str ''-'') (str ''_'') (py_replace (str '' '') (str ''_'') clean);
          clean = collapse_underscores clean
      in lower (strip_chars (str ''_'') clean))"

section \<open>Well-formed identifiers\<close>

text \<open>
  What an ASCII-only index namespace or record-id prefix looks like: lowercase ASCII
  letters, ASCII digits and underscores only, no underscore at either end, and no two
  underscores in a row.
\<close>

definition allowed_char :: "nat \<Rightarrow> bool" where
  "allowed_char c = ((97 \<le> c \<and> c \<le> 122) \<or> (48 \<le> c \<and> c \<le> 57) \<or> c = ord CHR ''_'')"

definition clean_id :: "pystr \<Rightarrow> bool" where
  "clean_id s = ((\<forall>c \<in> set s. allowed_char c) \<and> \<not> startswith s (str ''_'')
       \<and> \<not> endswith s (str ''_'') \<and> \<not> contains (str ''__'') s)"

section \<open>Python values, dictionaries and exceptions\<close>

text \<open>
  The exceptions the modelled code can raise. \<open>KeyError\<close> carries the missing key;
  \<open>ServiceError\<close> stands for whatever exception a call of an external service (an index
  search, the reranker) raises.
\<close>

datatype error = KeyError pystr | ValueError | TypeError | ServiceError

text \<open>
  The values stored in records and hit fields are text or numbers. A dictionary with
  string keys is a map from keys to values; \<open>d[k]\<close> raises \<open>KeyError\<close> on a missing key.
\<close>

datatype val = VStr pystr | VNum rat

type_synonym pydict = "pystr \<rightharpoonup> val"

definition getitem :: "pydict \<Rightarrow> pystr \<Rightarrow> error + val" where
  "getitem d k = (case d k of None \<Rightarrow> Inl (KeyError k) | Some v \<Rightarrow> Inr v)"

text \<open>Truth value of a Python value: the empty string and zero are false.\<close>

fun truthy :: "val \<Rightarrow> bool" where
  "truthy (VStr s) = (s \<noteq> [])"
| "truthy (VNum n) = (n \<noteq> 0)"

text \<open>\<open>isinstance(v, str)\<close>\<close>

fun is_str :: "val \<Rightarrow> bool" where
  "is_str (VStr s) = True"
| "is_str (VNum n) = False"

text \<open>
  \<open>c.isspace()\<close>: the code points Python counts as whitespace, and \<open>s.strip()\<close>,
  which drops them from both ends.
\<close>

definition py_isspace :: "nat \<Rightarrow> bool" where
  "py_isspace c = ((9 \<le> c \<and> c \<le> 13) \<or> (28 \<le> c \<and> c \<le> 32) \<or> c = 133 \<or> c = 160
      \<or> c = 5760 \<or> (8192 \<le> c \<and> c \<le> 8202) \<or> c = 8232 \<or> c = 8233 \<or> c = 8239
      \<or> c = 8287 \<or> c = 12288)"

definition strip :: "pystr \<Rightarrow> pystr" where
  "strip s = rev (dropWhile py_isspace (rev (dropWhile py_isspace s)))"

text \<open>\<open>sep.join(parts)\<close>\<close>

fun join :: "pystr \<Rightarrow> pystr list \<Rightarrow> pystr" where
  "join sep [] = []"
| "join sep [x] = x"
| "join sep (x # y # ys) = x @ sep @ join sep (y # ys)"

text \<open>
  \<open>range(start, stop, step)\<close> as the list of its elements; a zero step raises
  \<open>ValueError\<close>. The number of elements is the one CPython computes.
\<close>

definition py_range :: "int \<Rightarrow> int \<Rightarrow> int \<Rightarrow> error + int list" where
  "py_range start stop step =
     (if step = 0 then Inl ValueError
      else if step > 0
      then Inr (map (\<lambda>j. start + int j * step) [0..<nat ((stop - start + step - 1) div step)])
      else Inr (map (\<lambda>j. start + int j * step) [0..<nat ((start - stop - step - 1) div (- step))]))"

text \<open>
  The slice \<open>xs[i:j]\<close>: a negative index counts from the end, and both indices are
  clamped to the list.
\<close>

definition slice_index :: "int \<Rightarrow> int \<Rightarrow> int" where
  "slice_index n i = (if i < 0 then max 0 (i + n) else min i n)"

definition py_slice :: "'a list \<Rightarrow> int \<Rightarrow> int \<Rightarrow> 'a list" where
  "py_slice xs i j =
     (let n = int (length xs); a = slice_index n i; b = slice_index n j
      in take (nat (b - a)) (drop (nat a) xs))"

text \<open>
  The decimal digits of a natural number, and the format \<open>{n:03d}\<close>: the sign, then
  zeros up to a total width of three, then the digits.
\<close>

fun digits :: "nat \<Rightarrow> pystr" where
  "digits n = (if n < 10 then [ord CHR ''0'' + n] else digits (n div 10) @ [ord CHR ''0'' + n mod 10])"

declare digits.simps [simp del]

definition format_03d :: "int \<Rightarrow> pystr" where
  "format_03d n =
     (let sign = (if n < 0 then str ''-'' else []);
          ds = digits (nat \<bar>n\<bar>)
      in sign @ replicate (3 - length sign - length ds) (ord CHR ''0'') @ ds)"

section \<open>The replacement step as the specification words it\<close>

text \<open>
  The specification's second step of the sanitizer: whitespace and the characters
  \<open>()[]-\<close> each become an underscore. It is compared with \<open>replace_special\<close> below.
\<close>

definition spec_replace_special :: "pystr \<Rightarrow> pystr" where
  "spec_replace_special text =
     map (\<lambda>c. if py_isspace c \<or> c \<in> set (str ''()[]-'') then ord CHR ''_'' else c) text"

section \<open>The record checks as the specification words them\<close>

text \<open>
  The specification's check of one record: \<open>id\<close> present and non-empty; \<open>content\<close>
  present, of text type and non-empty after trimming; \<open>record_type\<close> one of the two
  known values; and for a slide, \<open>slide_number\<close> and \<open>keywords\<close> present.
\<close>

definition spec_record_ok :: "pydict \<Rightarrow> bool" where
  "spec_record_ok r =
     ((case r (str ''_id'') of None \<Rightarrow> False | Some v \<Rightarrow> truthy v)
      \<and> (case r (str ''content'') of Some (VStr s) \<Rightarrow> strip s \<noteq> [] | _ \<Rightarrow> False)
      \<and> (r (str ''type'') = Some (VStr (str ''deck_metadata''))
           \<or> r (str ''type'') = Some (VStr (str ''slide'')))
      \<and> (r (str ''type'') = Some (VStr (str ''slide''))
           \<longrightarrow> r (str ''slide_number'') \<noteq> None \<and> r (str ''keywords'') \<noteq> None))"

section \<open>Record builder (transform_to_pinecone_format.py)\<close>

text \<open>
  The input document, with the field types the docstring of
  \<open>transform_metadata_to_records\<close> gives. Any field may be missing from the JSON
  (\<open>None\<close>). The slide's \<open>keywords\<close> field is \<open>slide_keywords\<close> here.
\<close>

record deck_meta =
  filename :: "pystr option"
  deck_industry :: "pystr option"
  company_name :: "pystr option"
  executive_summary :: "pystr option"
  total_pages :: "int option"
  created_date :: "pystr option"
  pdf_url :: "pystr option"

record slide =
  slide_number :: "int option"
  slide_content :: "pystr option"
  slide_summary :: "pystr option"
  slide_keywords :: "pystr list option"
  slide_layout :: "pystr option"
  image_url :: "pystr option"

record document =
  deck_metadata :: "deck_meta option"
  slide_data :: "slide list option"

text \<open>\<open>d[k]\<close> and \<open>d.get(k, default)\<close> on a field of the input.\<close>

definition require :: "pystr \<Rightarrow> 'a option \<Rightarrow> error + 'a" where
  "require k field = (case field of None \<Rightarrow> Inl (KeyError k) | Some v \<Rightarrow> Inr v)"

definition get_or :: "'a option \<Rightarrow> 'a \<Rightarrow> 'a" where
  "get_or field dflt = (case field of None \<Rightarrow> dflt | Some v \<Rightarrow> v)"

definition build_deck_content :: "deck_meta \<Rightarrow> pystr" where
  "build_deck_content dm =
     join (str ''\<newline>'')
       [str ''Filename: '' @ get_or (filename dm) [],
        str ''Industry: '' @ get_or (deck_industry dm) [],
        str ''Company: '' @ get_or (company_name dm) [],
        str ''Executive Summary: '' @ get_or (executive_summary dm) []]"

definition build_slide_content :: "slide \<Rightarrow> pystr" where
  "build_slide_content sl =
     join (str ''\<newline>'')
       ((if get_or (slide_content sl) [] \<noteq> []
         then [str ''Content: '' @ get_or (slide_content sl) []] else []) @
        (if get_or (slide_summary sl) [] \<noteq> []
         then [str ''Summary: '' @ get_or (slide_summary sl) []] else []) @
        (if get_or (slide_keywords sl) [] \<noteq> []
         then [str ''Keywords: '' @ join (str '', '') (get_or (slide_keywords sl) [])] else []) @
        (if get_or (slide_layout sl) [] \<noteq> []
         then [str ''Layout: '' @ get_or (slide_layout sl) []] else []))"

text \<open>
  The document id: the sanitized file name, or, when that is empty or a single
  underscore, \<open>doc_\<close> followed by the current time. \<open>now\<close> is the text
  \<open>datetime.now().strftime('%Y%m%d_%H%M%S')\<close> yields.
\<close>

definition make_pdf_id :: "pystr \<Rightarrow> pystr \<Rightarrow> pystr" where
  "make_pdf_id now fname =
     (let pdf_id = sanitize_id fname
      in if pdf_id = [] \<or> pdf_id = str ''_'' then str ''doc_'' @ now else pdf_id)"

definition deck_record :: "pystr \<Rightarrow> pystr \<Rightarrow> deck_meta \<Rightarrow> pydict" where
  "deck_record pdf_id fname dm =
     (let r = [str ''_id'' \<mapsto> VStr (pdf_id @ str ''_meta''),
               str ''content'' \<mapsto> VStr (build_deck_content dm),
               str ''type'' \<mapsto> VStr (str ''deck_metadata''),
               str ''pdf_id'' \<mapsto> VStr pdf_id,
               str ''pdf_filename'' \<mapsto> VStr fname,
               str ''company'' \<mapsto> VStr (get_or (company_name dm) []),
               str ''industry'' \<mapsto> VStr (get_or (deck_industry dm) []),
               str ''total_pages'' \<mapsto> VNum (of_int (get_or (total_pages dm) 0)),
               str ''created_date'' \<mapsto> VStr (get_or (created_date dm) [])]
      in if get_or (pdf_url dm) [] \<noteq> [] then r(str ''pdf_url'' \<mapsto> VStr (get_or (pdf_url dm) []))
         else r)"

definition slide_record :: "pystr \<Rightarrow> pystr \<Rightarrow> deck_meta \<Rightarrow> slide \<Rightarrow> error + pydict" where
  "slide_record pdf_id fname dm sl =
     (case require (str ''slide_number'') (slide_number sl) of
        Inl e \<Rightarrow> Inl e
      | Inr n \<Rightarrow> Inr
          [str ''_id'' \<mapsto> VStr (pdf_id @ str ''_slide_'' @ format_03d n),
           str ''content'' \<mapsto> VStr (build_slide_content sl),
           str ''type'' \<mapsto> VStr (str ''slide''),
           str ''pdf_id'' \<mapsto> VStr pdf_id,
           str ''pdf_filename'' \<mapsto> VStr fname,
           str ''company'' \<mapsto> VStr (get_or (company_name dm) []),
           str ''industry'' \<mapsto> VStr (get_or (deck_industry dm) []),
           str ''slide_number'' \<mapsto> VNum (of_int n),
           str ''keywords'' \<mapsto> VStr (join (str '', '') (get_or (slide_keywords sl) [])),
           str ''slide_layout'' \<mapsto> VStr (get_or (slide_layout sl) []),
           str ''image_url'' \<mapsto> VStr (get_or (image_url sl) [])])"

text \<open>
  The loop over the slides appends one record per slide to \<open>records\<close>; the first
  exception ends the whole function.
\<close>

fun slide_records :: "pystr \<Rightarrow> pystr \<Rightarrow> deck_meta \<Rightarrow> slide list \<Rightarrow> pydict list
    \<Rightarrow> error + pydict list" where
  "slide_records pdf_id fname dm [] records = Inr records"
| "slide_records pdf_id fname dm (sl # slides) records =
     (case slide_record pdf_id fname dm sl of
        Inl e \<Rightarrow> Inl e
      | Inr r \<Rightarrow> slide_records pdf_id fname dm slides (records @ [r]))"

record doc_info =
  info_pdf_id :: pystr
  info_filename :: pystr
  info_company :: pystr
  info_industry :: pystr
  info_total_records :: nat
  info_deck_metadata_record :: nat
  info_slide_records :: nat

definition transform_metadata_to_records ::
    "pystr \<Rightarrow> document \<Rightarrow> error + (pydict list \<times> doc_info)" where
  "transform_metadata_to_records now data =
     (case require (str ''deck_metadata'') (deck_metadata data) of
        Inl e \<Rightarrow> Inl e
      | Inr dm \<Rightarrow>
     (case require (str ''slide_data'') (slide_data data) of
        Inl e \<Rightarrow> Inl e
      | Inr slides \<Rightarrow>
     (case require (str ''filename'') (filename dm) of
        Inl e \<Rightarrow> Inl e
      | Inr fname \<Rightarrow>
          (let pdf_id = make_pdf_id now fname
           in case slide_records pdf_id fname dm slides [deck_record pdf_id fname dm] of
                Inl e \<Rightarrow> Inl e
              | Inr records \<Rightarrow> Inr (records,
                  \<lparr>info_pdf_id = pdf_id, info_filename = fname,
                   info_company = get_or (company_name dm) [],
                   info_industry = get_or (deck_industry dm) [],
                   info_total_records = length records,
                   info_deck_metadata_record = 1,
                   info_slide_records = length slides\<rparr>)))))"

section \<open>Batcher (transform_to_pinecone_format.py)\<close>

definition MAX_BATCH_SIZE :: int where
  "MAX_BATCH_SIZE = 96"

definition create_batches :: "'a list \<Rightarrow> int \<Rightarrow> error + 'a list list" where
  "create_batches records batch_size =
     (case py_range 0 (int (length records)) batch_size of
        Inl e \<Rightarrow> Inl e
      | Inr starts \<Rightarrow> Inr (map (\<lambda>i. py_slice records i (i + batch_size)) starts))"

section \<open>Record validation of the ingestion pipeline (transform_to_pinecone_format.py)\<close>

definition validate_record :: "pydict \<Rightarrow> bool \<times> pystr" where
  "validate_record r =
     (if r (str ''_id'') = None then (False, str ''Missing '_id' field'')
      else case r (str ''content'') of
        None \<Rightarrow> (False, str ''Missing 'content' field'')
      | Some c \<Rightarrow>
          (case c of
             VNum n \<Rightarrow> (False, str ''Invalid or empty 'content' field'')
           | VStr s \<Rightarrow>
               if s = [] then (False, str ''Invalid or empty 'content' field'')
               else if length (strip s) = 0 then (False, str ''Empty 'content' field'')
               else (True, str ''Valid'')))"

text \<open>
  \<open>process_metadata_file\<close>: what it returns, the line it prints for each invalid
  record (the record's \<open>_id\<close>, or \<open>unknown\<close>, and the message) and the batch files it
  writes. Any exception of the body is caught and makes it return \<open>False\<close>.
\<close>

record outcome =
  succeeded :: bool
  invalid_lines :: "(val \<times> pystr) list"
  batch_files :: "(pystr \<times> pydict list) list"

definition invalid_report :: "pydict list \<Rightarrow> (val \<times> pystr) list" where
  "invalid_report records =
     concat (map (\<lambda>r. if fst (validate_record r) then []
                       else [(case r (str ''_id'') of None \<Rightarrow> VStr (str ''unknown'') | Some v \<Rightarrow> v,
                              snd (validate_record r))]) records)"

definition save_batches :: "pydict list list \<Rightarrow> (pystr \<times> pydict list) list" where
  "save_batches batches =
     map (\<lambda>(idx, batch). (str ''batch_'' @ format_03d (int idx) @ str ''.json'', batch))
       (zip [1..<Suc (length batches)] batches)"

definition process_metadata_file :: "pystr \<Rightarrow> document \<Rightarrow> outcome" where
  "process_metadata_file now data =
     (case transform_metadata_to_records now data of
        Inl e \<Rightarrow> \<lparr>succeeded = False, invalid_lines = [], batch_files = []\<rparr>
      | Inr (records, info) \<Rightarrow>
          (let report = invalid_report records
           in if length report > 0
              then \<lparr>succeeded = False, invalid_lines = report, batch_files = []\<rparr>
              else case create_batches records MAX_BATCH_SIZE of
                     Inl e \<Rightarrow> \<lparr>succeeded = False, invalid_lines = [], batch_files = []\<rparr>
                   | Inr batches \<Rightarrow>
                       \<lparr>succeeded = True, invalid_lines = [], batch_files = save_batches batches\<rparr>))"

section \<open>Record validation of the validation script (validate_transformation.py)\<close>

text \<open>
  The entries \<open>validate_pinecone_records\<close> appends to \<open>self.validation_errors\<close>. Each
  carries the index of the record, as the message \<open>Record {idx}: ...\<close> does:
  \<^item> \<open>MissingFields\<close>: \<open>Missing required fields {missing_fields}\<close>
  \<^item> \<open>EmptyId\<close>: \<open>Empty _id\<close>
  \<^item> \<open>BadContent\<close>: \<open>content must be non-empty string\<close>
  \<^item> \<open>BadType\<close>: \<open>type must be 'deck_metadata' or 'slide'\<close>
  \<^item> \<open>SlideMissingNumber\<close>: \<open>slide missing slide_number\<close>
  \<^item> \<open>SlideMissingKeywords\<close>: \<open>slide missing keywords\<close>
\<close>

datatype verror =
    MissingFields nat "pystr list"
  | EmptyId nat
  | BadContent nat
  | BadType nat
  | SlideMissingNumber nat
  | SlideMissingKeywords nat

definition required_fields :: "pystr list" where
  "required_fields = [str ''_id'', str ''content'', str ''type'', str ''pdf_id'', str ''pdf_title'',
                      str ''company'', str ''industry'']"

text \<open>\<open>not record.get(k)\<close> and \<open>isinstance(record.get(k), str)\<close>: a missing key gives \<open>None\<close>.\<close>

definition falsy_get :: "pydict \<Rightarrow> pystr \<Rightarrow> bool" where
  "falsy_get r k = (case r k of None \<Rightarrow> True | Some v \<Rightarrow> \<not> truthy v)"

definition is_str_get :: "pydict \<Rightarrow> pystr \<Rightarrow> bool" where
  "is_str_get r k = (case r k of None \<Rightarrow> False | Some v \<Rightarrow> is_str v)"

text \<open>The body of the loop over \<open>enumerate(records)\<close>: the entries one record adds.\<close>

definition record_errors :: "nat \<Rightarrow> pydict \<Rightarrow> verror list" where
  "record_errors idx r =
     (let missing_fields = filter (\<lambda>k. r k = None) required_fields
      in if missing_fields \<noteq> [] then [MissingFields idx missing_fields] else []) @
     (if falsy_get r (str ''_id'') then [EmptyId idx] else []) @
     (if \<not> is_str_get r (str ''content'') \<or> falsy_get r (str ''content'') then [BadContent idx]
      else []) @
     (if r (str ''type'') \<noteq> Some (VStr (str ''deck_metadata''))
         \<and> r (str ''type'') \<noteq> Some (VStr (str ''slide''))
      then [BadType idx] else []) @
     (if r (str ''type'') = Some (VStr (str ''slide''))
      then (if r (str ''slide_number'') = None then [SlideMissingNumber idx] else []) @
           (if r (str ''keywords'') = None then [SlideMissingKeywords idx] else [])
      else [])"

text \<open>
  \<open>validate_pinecone_records\<close> takes the entries \<open>self.validation_errors\<close> already holds
  and returns the list it leaves there with its result.
\<close>

definition validate_pinecone_records :: "verror list \<Rightarrow> pydict list \<Rightarrow> verror list \<times> bool" where
  "validate_pinecone_records validation_errors records =
     (let errors = validation_errors @
            concat (map (\<lambda>(idx, r). record_errors idx r) (zip [0..<length records] records))
      in (errors, errors = []))"

section \<open>Merging dense and sparse hits (deckbot_unified_index.py, setup_hybrid_search.py)\<close>

text \<open>
  A hit of an index search: \<open>hit['_id']\<close>, \<open>hit['_score']\<close> and \<open>hit['fields']\<close>. Scores
  are rational numbers here: the arithmetic is exact, the rounding of Python's floats is
  not modelled.
\<close>

record hit =
  hit_id :: pystr
  hit_score :: rat
  hit_fields :: pydict

text \<open>
  The document \<open>_merge_results\<close> builds from a hit: \<open>_id\<close>, \<open>content\<close> and \<open>_score\<close>,
  then every field of the hit but \<open>content\<close>, which overwrites an entry of the same name.
  A hit without a \<open>content\<close> field raises \<open>KeyError\<close>.
\<close>

definition doc_all_fields :: "hit \<Rightarrow> error + pydict" where
  "doc_all_fields h =
     (case getitem (hit_fields h) (str ''content'') of
        Inl e \<Rightarrow> Inl e
      | Inr c \<Rightarrow> Inr ([str ''_id'' \<mapsto> VStr (hit_id h), str ''content'' \<mapsto> c,
                        str ''_score'' \<mapsto> VNum (hit_score h)]
                       ++ (hit_fields h |` (- {str ''content''}))))"

text \<open>
  The document \<open>merge_results\<close> of setup_hybrid_search.py builds: of the fields it copies
  only \<open>keywords\<close>, \<open>slide_number\<close> and \<open>type\<close>, when the hit has them.
\<close>

definition doc_known_fields :: "hit \<Rightarrow> error + pydict" where
  "doc_known_fields h =
     (case getitem (hit_fields h) (str ''content'') of
        Inl e \<Rightarrow> Inl e
      | Inr c \<Rightarrow> Inr ([str ''_id'' \<mapsto> VStr (hit_id h), str ''content'' \<mapsto> c,
                        str ''_score'' \<mapsto> VNum (hit_score h)]
                       ++ (hit_fields h |` {str ''keywords'', str ''slide_number'', str ''type''})))"

text \<open>
  The dictionary \<open>hits\<close> keeps its keys in insertion order, and an assignment to a key
  it already has keeps the key's place: an association list updated in place.

  First loop: every dense hit is stored under its id.
\<close>

fun add_dense :: "(hit \<Rightarrow> error + pydict) \<Rightarrow> hit list \<Rightarrow> (pystr \<times> pydict) list
    \<Rightarrow> error + (pystr \<times> pydict) list" where
  "add_dense mk [] hits = Inr hits"
| "add_dense mk (h # hs) hits =
     (case mk h of
        Inl e \<Rightarrow> Inl e
      | Inr doc \<Rightarrow> add_dense mk hs (AList.update (hit_id h) doc hits))"

text \<open>\<open>(a + b) / 2\<close> for the stored score \<open>a\<close>; a text cannot be added to a number.\<close>

fun average_score :: "val \<Rightarrow> rat \<Rightarrow> error + val" where
  "average_score (VNum a) b = Inr (VNum ((a + b) / 2))"
| "average_score (VStr s) b = Inl TypeError"

text \<open>
  Second loop: a sparse hit whose id is already there only changes the stored score;
  another one is stored as a new document.
\<close>

fun add_sparse :: "(hit \<Rightarrow> error + pydict) \<Rightarrow> hit list \<Rightarrow> (pystr \<times> pydict) list
    \<Rightarrow> error + (pystr \<times> pydict) list" where
  "add_sparse mk [] hits = Inr hits"
| "add_sparse mk (h # hs) hits =
     (case map_of hits (hit_id h) of
        Some doc \<Rightarrow>
          (case getitem doc (str ''_score'') of
             Inl e \<Rightarrow> Inl e
           | Inr v \<Rightarrow>
               (case average_score v (hit_score h) of
                  Inl e \<Rightarrow> Inl e
                | Inr v' \<Rightarrow>
                    add_sparse mk hs (AList.update (hit_id h) (doc(str ''_score'' \<mapsto> v')) hits)))
      | None \<Rightarrow>
          (case mk h of
             Inl e \<Rightarrow> Inl e
           | Inr doc \<Rightarrow> add_sparse mk hs (AList.update (hit_id h) doc hits)))"

text \<open>
  \<open>sorted(docs, key=lambda x: x['_score'], reverse=True)\<close>. The sort is stable, and with
  \<open>reverse=True\<close> Python reverses the list, sorts it in ascending order and reverses the
  result. Numbers compare with numbers and texts with texts; comparing a number with a
  text raises \<open>TypeError\<close>, and a list of at most one document is not compared at all.
\<close>

definition score_number :: "pydict \<Rightarrow> rat" where
  "score_number doc = (case doc (str ''_score'') of Some (VNum a) \<Rightarrow> a | _ \<Rightarrow> 0)"

definition score_text :: "pydict \<Rightarrow> pystr" where
  "score_text doc = (case doc (str ''_score'') of Some (VStr s) \<Rightarrow> s | _ \<Rightarrow> [])"

definition has_number_score :: "pydict \<Rightarrow> bool" where
  "has_number_score doc = (case doc (str ''_score'') of Some (VNum a) \<Rightarrow> True | _ \<Rightarrow> False)"

definition has_text_score :: "pydict \<Rightarrow> bool" where
  "has_text_score doc = (case doc (str ''_score'') of Some (VStr s) \<Rightarrow> True | _ \<Rightarrow> False)"

definition sorted_by_score :: "pydict list \<Rightarrow> error + pydict list" where
  "sorted_by_score docs =
     (if list_ex (\<lambda>doc. doc (str ''_score'') = None) docs then Inl (KeyError (str ''_score''))
      else if length docs \<le> 1 then Inr docs
      else if list_all has_number_score docs then Inr (rev (sort_key score_number (rev docs)))
      else if list_all has_text_score docs then Inr (rev (sort_key score_text (rev docs)))
      else Inl TypeError)"

definition merge_hits :: "(hit \<Rightarrow> error + pydict) \<Rightarrow> hit list \<Rightarrow> hit list \<Rightarrow> error + pydict list" where
  "merge_hits mk dense sparse =
     (case add_dense mk dense [] of
        Inl e \<Rightarrow> Inl e
      | Inr hits \<Rightarrow>
          (case add_sparse mk sparse hits of
             Inl e \<Rightarrow> Inl e
           | Inr hits' \<Rightarrow> sorted_by_score (map snd hits')))"

text \<open>\<open>DeckBotIndexManager._merge_results\<close> (deckbot_unified_index.py)\<close>

definition merge_results_unified :: "hit list \<Rightarrow> hit list \<Rightarrow> error + pydict list" where
  "merge_results_unified dense sparse = merge_hits doc_all_fields dense sparse"

text \<open>\<open>merge_results\<close> (setup_hybrid_search.py)\<close>

definition merge_results :: "hit list \<Rightarrow> hit list \<Rightarrow> error + pydict list" where
  "merge_results dense sparse = merge_hits doc_known_fields dense sparse"

section \<open>Cascading search (deckbot_unified_index.py)\<close>

text \<open>
  A metadata filter such as \<open>{"company": {"$eq": company}}\<close>: field, operator and value.
  The query sent to an index, and the request sent to the reranker.
\<close>

type_synonym attr_filter = "(pystr \<times> pystr \<times> val) list"

record search_query =
  sq_top_k :: int
  sq_text :: pystr
  sq_filter :: "attr_filter option"

record rerank_request =
  rr_model :: pystr
  rr_query :: pystr
  rr_documents :: "pydict list"
  rr_rank_fields :: "pystr list"
  rr_top_n :: int
  rr_return_documents :: bool
  rr_truncate :: pystr

text \<open>
  The external services: the search of the dense and of the sparse index (namespace and
  query), and the reranker. Each returns its result or raises.
\<close>

record 'r services =
  dense_search :: "pystr \<Rightarrow> search_query \<Rightarrow> error + hit list"
  sparse_search :: "pystr \<Rightarrow> search_query \<Rightarrow> error + hit list"
  rerank :: "rerank_request \<Rightarrow> error + 'r"

text \<open>The calls of external services a search makes, in order.\<close>

datatype call =
    DenseSearch pystr search_query
  | SparseSearch pystr search_query
  | Rerank rerank_request

text \<open>
  \<open>cascading_search\<close> returns the calls it made together with its result. The
  printing of the results is not modelled.
\<close>

definition cascading_search ::
    "'r services \<Rightarrow> pystr \<Rightarrow> pystr \<Rightarrow> attr_filter option \<Rightarrow> int \<Rightarrow> int
     \<Rightarrow> call list \<times> (error + 'r)" where
  "cascading_search pc query namespace filters top_k rerank_top_n =
     (let q = \<lparr>sq_top_k = top_k, sq_text = query,
               sq_filter = (if filters \<noteq> None \<and> filters \<noteq> Some [] then filters else None)\<rparr>
      in case dense_search pc namespace q of
           Inl e \<Rightarrow> ([DenseSearch namespace q], Inl e)
         | Inr dense_hits \<Rightarrow>
      (case sparse_search pc namespace q of
           Inl e \<Rightarrow> ([DenseSearch namespace q, SparseSearch namespace q], Inl e)
         | Inr sparse_hits \<Rightarrow>
      (case merge_results_unified dense_hits sparse_hits of
           Inl e \<Rightarrow> ([DenseSearch namespace q, SparseSearch namespace q], Inl e)
         | Inr merged \<Rightarrow>
             (let request = \<lparr>rr_model = str ''bge-reranker-v2-m3'', rr_query = query,
                    rr_documents = merged, rr_rank_fields = [str ''content''],
                    rr_top_n = min rerank_top_n (int (length merged)),
                    rr_return_documents = True, rr_truncate = str ''END''\<rparr>
              in ([DenseSearch namespace q, SparseSearch namespace q, Rerank request],
                  rerank pc request)))))"

section \<open>Invariant of the merge\<close>





section \<open>Example inputs\<close>

definition example_deck :: deck_meta where
  "example_deck = \<lparr>filename = Some (str ''DB (Insurance) 2025.pdf''), deck_industry = Some (str ''insurance''),
     company_name = Some (str ''DB''), executive_summary = None, total_pages = Some 2,
     created_date = None, pdf_url = None\<rparr>"

definition example_slide :: "int option \<Rightarrow> slide" where
  "example_slide n = \<lparr>slide_number = n, slide_content = None, slide_summary = Some (str ''Overview''),
     slide_keywords = Some [str ''a'', str ''b''], slide_layout = None, image_url = None\<rparr>"










definition empty_services :: "pydict list services" where
  "empty_services = \<lparr>dense_search = (\<lambda>namespace q. Inr []),
     sparse_search = (\<lambda>namespace q. Inr []),
     rerank = (\<lambda>request. Inr (take (nat (rr_top_n request)) (rr_documents request)))\<rparr>"



section \<open>Evaluation rules for concrete inputs\<close>

named_theorems py_eval

lemma py_replace_Nil_eval [py_eval]: "py_replace (a # old) new [] = []"
  by (simp add: py_replace.simps)

lemma py_replace_Cons_eval [py_eval]:
  "py_replace (a # old) new (c # cs) =
     (if take (Suc (length old)) (c # cs) = a # old
      then new @ py_replace (a # old) new (drop (length old) cs)
      else c # py_replace (a # old) new cs)"
  by (subst py_replace.simps) simp

lemmas [py_eval] = str_def ord_def sanitize_id_def replace_special_def remove_extension_def
  endswith_def startswith_def keep_ascii_def isascii_def ascii_isalnum_def lower_def lower_char_def
  strip_chars_def collapse_underscores.simps

lemma replicate_numeral_eval [py_eval]:
  "replicate (numeral v) x = x # replicate (numeral v - 1) x"
  by (simp add: numeral_eq_Suc)

lemmas [py_eval] = format_03d_def digits.simps

section \<open>Lemmas about the string operations\<close>

lemma py_replace_Nil [simp]: "old \<noteq> [] \<Longrightarrow> py_replace old new [] = []"
  by (simp add: py_replace.simps)

lemma py_replace_char_Cons:
  "py_replace [a] new (c # cs) = (if c = a then new @ py_replace [a] new cs else c # py_replace [a] new cs)"
  by (subst py_replace.simps) simp

lemma py_replace_char_map: "py_replace [a] [b] s = map (\<lambda>c. if c = a then b else c) s"
  by (induction s) (simp_all add: py_replace_char_Cons)

lemma py_replace_char_del: "py_replace [a] [] s = filter (\<lambda>c. c \<noteq> a) s"
  by (induction s) (simp_all add: py_replace_char_Cons)

lemma py_replace_set: "old \<noteq> [] \<Longrightarrow> set (py_replace old new s) \<subseteq> set s \<union> set new"
proof (induction old new s rule: py_replace.induct)
  case (1 old new s)
  show ?case
  proof (cases "s = []")
    case True
    then show ?thesis using 1(3) by simp
  next
    case ne: False
    show ?thesis
    proof (cases "take (length old) s = old")
      case True
      have "set (py_replace old new (drop (length old) s)) \<subseteq> set (drop (length old) s) \<union> set new"
        using 1(1) [OF 1(3) ne True 1(3)] .
      moreover have "set (drop (length old) s) \<subseteq> set s" by (rule set_drop_subset)
      ultimately show ?thesis
        using True ne 1(3) by (subst py_replace.simps) auto
    next
      case False
      have "set (py_replace old new (tl s)) \<subseteq> set (tl s) \<union> set new"
        using 1(2) [OF 1(3) ne False 1(3)] .
      then show ?thesis
        using False ne 1(3) by (subst py_replace.simps) (cases s, auto)
    qed
  qed
qed

lemma py_replace_absent: "old \<noteq> [] \<Longrightarrow> \<not> contains old s \<Longrightarrow> py_replace old new s = s"
proof (induction s)
  case Nil
  then show ?case by simp
next
  case (Cons c cs)
  then show ?case by (subst py_replace.simps) simp
qed

lemma collapse_no_double: "\<not> contains (str ''__'') (collapse_underscores s)"
  by (induction s rule: collapse_underscores.induct) (simp add: collapse_underscores.simps)

lemma collapse_set: "set (collapse_underscores s) \<subseteq> insert (ord CHR ''_'') (set s)"
proof (induction s rule: collapse_underscores.induct)
  case (1 clean)
  show ?case
  proof (cases "contains (str ''__'') clean")
    case True
    have "set (py_replace (str ''__'') (str ''_'') clean) \<subseteq> set clean \<union> set (str ''_'')"
      by (rule py_replace_set) (simp add: str_def)
    then show ?thesis
      using 1 [OF True] True by (subst collapse_underscores.simps) (auto simp: str_def ord_def)
  next
    case False
    then show ?thesis by (subst collapse_underscores.simps) auto
  qed
qed

lemma collapse_fixed: "\<not> contains (str ''__'') s \<Longrightarrow> collapse_underscores s = s"
  by (simp add: collapse_underscores.simps)

lemma contains_iff: "contains sub s \<longleftrightarrow> (\<exists>p q. s = p @ sub @ q)"
proof (induction s)
  case Nil
  show ?case by auto
next
  case (Cons c cs)
  have pre: "take (length sub) (c # cs) = sub \<longleftrightarrow> (\<exists>q. c # cs = sub @ q)"
    by (metis append_eq_conv_conj)
  show ?case
  proof
    assume "contains sub (c # cs)"
    then consider "take (length sub) (c # cs) = sub" | "contains sub cs" by auto
    then show "\<exists>p q. c # cs = p @ sub @ q"
    proof cases
      case 1
      then obtain q where "c # cs = sub @ q" using pre by blast
      then have "c # cs = [] @ sub @ q" by simp
      then show ?thesis by blast
    next
      case 2
      then obtain p q where "cs = p @ sub @ q" using Cons.IH by blast
      then have "c # cs = (c # p) @ sub @ q" by simp
      then show ?thesis by blast
    qed
  next
    assume "\<exists>p q. c # cs = p @ sub @ q"
    then obtain p q where pq: "c # cs = p @ sub @ q" by blast
    show "contains sub (c # cs)"
    proof (cases p)
      case Nil
      then have "\<exists>q. c # cs = sub @ q" using pq by auto
      then have "take (length sub) (c # cs) = sub" using pre by blast
      then show ?thesis by simp
    next
      case (Cons a p')
      then have "cs = p' @ sub @ q" using pq by simp
      then show ?thesis using Cons.IH by auto
    qed
  qed
qed

lemma strip_chars_decomp: "\<exists>a b. s = a @ strip_chars chars s @ b"
proof -
  define P where "P = (\<lambda>c. c \<in> set chars)"
  define d where "d = dropWhile P s"
  define e where "e = dropWhile P (rev d)"
  have st: "strip_chars chars s = rev e"
    by (simp only: strip_chars_def e_def d_def P_def)
  have "takeWhile P (rev d) @ e = rev d"
    unfolding e_def by (rule takeWhile_dropWhile_id)
  then have "rev (takeWhile P (rev d) @ e) = d"
    by (simp only: rev_rev_ident)
  then have 2: "rev e @ rev (takeWhile P (rev d)) = d"
    by (simp only: rev_append)
  have "takeWhile P s @ d = s"
    unfolding d_def by (rule takeWhile_dropWhile_id)
  then have "s = takeWhile P s @ rev e @ rev (takeWhile P (rev d))"
    by (simp only: 2)
  then show ?thesis unfolding st by blast
qed

lemma strip_chars_set: "set (strip_chars chars s) \<subseteq> set s"
  using strip_chars_decomp [of s chars] by (metis Un_iff set_append subsetI)

lemma strip_chars_contains: "contains sub (strip_chars chars s) \<Longrightarrow> contains sub s"
proof -
  assume "contains sub (strip_chars chars s)"
  then obtain p q where pq: "strip_chars chars s = p @ sub @ q" using contains_iff by blast
  obtain a b where "s = a @ strip_chars chars s @ b" using strip_chars_decomp by blast
  then have "s = (a @ p) @ sub @ (q @ b)" using pq by simp
  then show ?thesis using contains_iff by blast
qed

lemma startswith_char: "startswith s [c] \<longleftrightarrow> (s \<noteq> [] \<and> hd s = c)"
  by (cases s) (simp_all add: startswith_def)

lemma endswith_char: "endswith s [c] \<longleftrightarrow> (s \<noteq> [] \<and> last s = c)"
proof (cases s rule: rev_cases)
  case Nil
  then show ?thesis by (simp add: endswith_def)
next
  case (snoc ys y)
  then show ?thesis by (simp add: endswith_def)
qed

lemma strip_chars_last: "strip_chars chars s \<noteq> [] \<Longrightarrow> last (strip_chars chars s) \<notin> set chars"
proof -
  let ?P = "\<lambda>c. c \<in> set chars"
  let ?e = "dropWhile ?P (rev (dropWhile ?P s))"
  assume "strip_chars chars s \<noteq> []"
  then have ne: "?e \<noteq> []" by (simp add: strip_chars_def)
  then have "\<not> ?P (hd ?e)" by (rule hd_dropWhile)
  moreover have "last (strip_chars chars s) = hd ?e"
    using ne by (simp add: strip_chars_def last_rev)
  ultimately show ?thesis by simp
qed

lemma last_dropWhile: "dropWhile P xs \<noteq> [] \<Longrightarrow> last (dropWhile P xs) = last xs"
  by (induction xs) auto

lemma strip_chars_hd: "strip_chars chars s \<noteq> [] \<Longrightarrow> hd (strip_chars chars s) \<notin> set chars"
proof -
  define P where "P = (\<lambda>c. c \<in> set chars)"
  define d where "d = dropWhile P s"
  define e where "e = dropWhile P (rev d)"
  have st: "strip_chars chars s = rev e"
    by (simp only: strip_chars_def e_def d_def P_def)
  assume "strip_chars chars s \<noteq> []"
  then have ne: "e \<noteq> []" by (simp add: st)
  have dne: "d \<noteq> []"
  proof
    assume "d = []"
    then have "e = []" by (simp add: e_def)
    then show False using ne by simp
  qed
  have "hd (strip_chars chars s) = last e" by (simp add: st hd_rev)
  also have "\<dots> = last (rev d)" using ne unfolding e_def by (rule last_dropWhile)
  also have "\<dots> = hd d" by (simp add: last_rev)
  finally have "hd (strip_chars chars s) = hd d" .
  moreover have "\<not> P (hd d)" using dne unfolding d_def by (rule hd_dropWhile)
  ultimately show ?thesis by (simp add: P_def)
qed

lemma strip_chars_fixed:
  assumes "s \<noteq> [] \<Longrightarrow> hd s \<notin> set chars" and "s \<noteq> [] \<Longrightarrow> last s \<notin> set chars"
  shows "strip_chars chars s = s"
proof (cases s)
  case Nil
  then show ?thesis by (simp add: strip_chars_def)
next
  case (Cons c cs)
  then have 1: "dropWhile (\<lambda>c. c \<in> set chars) s = s" using assms(1) by simp
  have "rev s \<noteq> []" using Cons by simp
  moreover have "hd (rev s) = last s" by (rule hd_rev)
  then have "hd (rev s) \<notin> set chars" using assms(2) Cons by simp
  ultimately have "dropWhile (\<lambda>c. c \<in> set chars) (rev s) = rev s"
    by (cases "rev s") simp_all
  then show ?thesis using 1 by (simp add: strip_chars_def)
qed

section \<open>The sanitizers produce well-formed identifiers\<close>

lemma keep_ascii_chars: "\<forall>c \<in> set (keep_ascii s). ascii_isalnum c \<or> c = ord CHR ''_''"
  by (auto simp: keep_ascii_def)

lemma lower_char_allowed: "ascii_isalnum c \<or> c = ord CHR ''_'' \<Longrightarrow> allowed_char (lower_char c)"
  by (auto simp: ascii_isalnum_def allowed_char_def lower_char_def ord_def)

lemma lower_char_underscore: "lower_char c = ord CHR ''_'' \<longleftrightarrow> c = ord CHR ''_''"
  by (auto simp: lower_char_def ord_def)

lemma str_underscore: "str ''_'' = [ord CHR ''_'']" and str_underscores: "str ''__'' = [ord CHR ''_'', ord CHR ''_'']"
  by (simp_all add: str_def ord_def)

lemma contains_double_map:
  assumes "\<And>c. f c = u \<longleftrightarrow> c = u"
  shows "contains [u, u] (map f s) \<longleftrightarrow> contains [u, u] s"
proof (induction s)
  case Nil
  show ?case by simp
next
  case (Cons c cs)
  have "take 2 (map f (c # cs)) = [u, u] \<longleftrightarrow> take 2 (c # cs) = [u, u]"
    using assms by (cases cs) auto
  then show ?case using Cons by simp
qed

lemma finish_clean:
  assumes "\<forall>c \<in> set s. ascii_isalnum c \<or> c = ord CHR ''_''"
  shows "clean_id (lower (strip_chars (str ''_'') (collapse_underscores s)))"
proof -
  define t where "t = strip_chars (str ''_'') (collapse_underscores s)"
  have "set t \<subseteq> set (collapse_underscores s)"
    unfolding t_def by (rule strip_chars_set)
  also have "\<dots> \<subseteq> insert (ord CHR ''_'') (set s)" by (rule collapse_set)
  finally have chars: "\<forall>c \<in> set t. ascii_isalnum c \<or> c = ord CHR ''_''"
    using assms by auto
  have nodbl: "\<not> contains (str ''__'') t"
    unfolding t_def using collapse_no_double strip_chars_contains by blast
  have hd: "t \<noteq> [] \<Longrightarrow> hd t \<noteq> ord CHR ''_''"
    unfolding t_def using strip_chars_hd [of "str ''_''"] by (simp add: str_underscore)
  have last: "t \<noteq> [] \<Longrightarrow> last t \<noteq> ord CHR ''_''"
    unfolding t_def using strip_chars_last [of "str ''_''"] by (simp add: str_underscore)
  have 1: "\<forall>c \<in> set (lower t). allowed_char c"
    using chars by (auto simp: lower_def lower_char_allowed)
  have 2: "\<not> startswith (lower t) (str ''_'')"
    using hd by (auto simp: str_underscore startswith_char lower_def hd_map lower_char_underscore)
  have 3: "\<not> endswith (lower t) (str ''_'')"
    using last by (auto simp: str_underscore endswith_char lower_def last_map lower_char_underscore)
  have 4: "\<not> contains (str ''__'') (lower t)"
    using nodbl contains_double_map [of lower_char "ord CHR ''_''" t]
    by (simp add: str_underscores lower_def lower_char_underscore)
  show ?thesis using 1 2 3 4 unfolding clean_id_def t_def by blast
qed

lemma sanitize_id_clean: "clean_id (sanitize_id x)"
  unfolding sanitize_id_def by (rule finish_clean) (rule keep_ascii_chars)

lemma sanitize_pdf_id_clean: "clean_id (sanitize_pdf_id stem x)"
proof -
  have "clean_id (lower (strip_chars (str ''_'') (collapse_underscores s)))"
    if "s = py_replace (str ''-'') (str ''_'') (py_replace (str '' '') (str ''_'')
          (map (\<lambda>c. if isascii c \<and> (ascii_isalnum c \<or> c \<in> set (str ''_- '')) then c
                           else ord CHR ''_'') b))" for s b
  proof (rule finish_clean)
    show "\<forall>c \<in> set s. ascii_isalnum c \<or> c = ord CHR ''_''"
      unfolding that by (auto simp: str_def ord_def py_replace_char_map)
  qed
  then show ?thesis unfolding sanitize_pdf_id_def Let_def by blast
qed

section \<open>A well-formed identifier is a fixed point of the sanitizer\<close>

lemma endswith_set: "endswith s suf \<Longrightarrow> set suf \<subseteq> set s"
  unfolding endswith_def by (metis set_drop_subset)

lemma allowed_char_not:
  "allowed_char c \<Longrightarrow> c \<noteq> ord CHR ''.'' \<and> c \<noteq> ord CHR '' '' \<and> c \<noteq> ord CHR ''('' \<and> c \<noteq> ord CHR '')''
     \<and> c \<noteq> ord CHR ''['' \<and> c \<noteq> ord CHR '']'' \<and> c \<noteq> ord CHR ''-''"
  by (auto simp: allowed_char_def ord_def)

lemma allowed_char_keep: "allowed_char c \<Longrightarrow> isascii c \<and> (ascii_isalnum c \<or> c = ord CHR ''_'')"
  by (auto simp: allowed_char_def ord_def isascii_def ascii_isalnum_def)

lemma allowed_char_lower: "allowed_char c \<Longrightarrow> lower_char c = c"
  by (auto simp: allowed_char_def ord_def lower_char_def)

lemma remove_extension_clean:
  assumes "\<forall>c \<in> set y. allowed_char c"
  shows "remove_extension y = y"
proof -
  have "\<not> endswith y (str ''.pdf'')"
  proof
    assume "endswith y (str ''.pdf'')"
    then have "set (str ''.pdf'') \<subseteq> set y" by (rule endswith_set)
    then have "ord CHR ''.'' \<in> set y" by (auto simp: str_def ord_def)
    then show False using assms allowed_char_not by blast
  qed
  then show ?thesis by (simp add: remove_extension_def)
qed

lemma str_char: "str [c] = [ord c]" and str_empty: "str [] = []"
  by (simp_all add: str_def ord_def)

lemma replace_special_clean:
  assumes "\<forall>c \<in> set y. allowed_char c"
  shows "replace_special y = y"
proof -
  have m: "py_replace (str [a]) (str [b]) y = y" if "ord a \<notin> set y" for a b
    unfolding str_char py_replace_char_map using that by (induction y) auto
  have f: "py_replace (str [a]) [] y = y" if "ord a \<notin> set y" for a
    unfolding str_char py_replace_char_del using that by (induction y) auto
  have n: "ord CHR '' '' \<notin> set y" "ord CHR ''-'' \<notin> set y" "ord CHR ''('' \<notin> set y"
    "ord CHR '')'' \<notin> set y" "ord CHR ''['' \<notin> set y" "ord CHR '']'' \<notin> set y"
    using assms allowed_char_not by blast+
  show ?thesis unfolding replace_special_def Let_def
    by (simp only: m [OF n(1)] m [OF n(2)] f [OF n(3)] f [OF n(4)] f [OF n(5)] f [OF n(6)])
qed

lemma keep_ascii_clean:
  assumes "\<forall>c \<in> set y. allowed_char c"
  shows "keep_ascii y = y"
  unfolding keep_ascii_def using assms allowed_char_keep by (induction y) auto

lemma lower_clean:
  assumes "\<forall>c \<in> set y. allowed_char c"
  shows "lower y = y"
  unfolding lower_def using assms allowed_char_lower by (induction y) auto

lemma sanitize_id_fixed:
  assumes "clean_id y"
  shows "sanitize_id y = y"
proof -
  have chars: "\<forall>c \<in> set y. allowed_char c" using assms by (simp add: clean_id_def)
  have "\<not> contains (str ''__'') y" using assms by (simp add: clean_id_def)
  then have c: "collapse_underscores y = y" by (rule collapse_fixed)
  have "y \<noteq> [] \<Longrightarrow> hd y \<notin> set (str ''_'')" and "y \<noteq> [] \<Longrightarrow> last y \<notin> set (str ''_'')"
    using assms by (auto simp: clean_id_def str_underscore startswith_char endswith_char)
  then have s: "strip_chars (str ''_'') y = y" by (rule strip_chars_fixed)
  show ?thesis
    unfolding sanitize_id_def
    by (simp only: remove_extension_clean [OF chars] replace_special_clean [OF chars]
          keep_ascii_clean [OF chars] c s lower_clean [OF chars])
qed

section \<open>What the replacement step does\<close>

lemma replace_special_map_filter:
  "replace_special text =
     map (\<lambda>c. if c = ord CHR '' '' \<or> c = ord CHR ''-'' then ord CHR ''_'' else c)
       (filter (\<lambda>c. c \<notin> set (str ''()[]'')) text)"
  unfolding replace_special_def Let_def str_char py_replace_char_map py_replace_char_del
  by (induction "text") (auto simp: str_def ord_def)

lemma keep_replaced_char:
  "(let d = (if c = ord CHR '' '' \<or> c = ord CHR ''-'' then ord CHR ''_'' else c)
    in if isascii d \<and> (ascii_isalnum d \<or> d = ord CHR ''_'') then d else ord CHR ''_'')
   = (if py_isspace c \<or> c = ord CHR ''-'' \<or> \<not> (isascii c \<and> ascii_isalnum c)
      then ord CHR ''_'' else c)"
proof -
  have sp: "py_isspace c \<Longrightarrow> \<not> (isascii c \<and> ascii_isalnum c)"
    unfolding py_isspace_def ascii_isalnum_def isascii_def by linarith
  have us: "\<not> ascii_isalnum (ord CHR ''_'')" "\<not> ascii_isalnum (ord CHR ''-'')"
      "\<not> ascii_isalnum (ord CHR '' '')" "isascii (ord CHR ''_'')"
    by (simp_all add: ascii_isalnum_def isascii_def ord_def)
  show ?thesis
  proof (cases "c = ord CHR '' '' \<or> c = ord CHR ''-''")
    case True
    then show ?thesis using us by auto
  next
    case False
    then show ?thesis using sp us by (cases "py_isspace c") (auto simp: Let_def)
  qed
qed

lemma keep_replace_special:
  "keep_ascii (replace_special text) =
     map (\<lambda>c. if py_isspace c \<or> c = ord CHR ''-'' \<or> \<not> (isascii c \<and> ascii_isalnum c)
              then ord CHR ''_'' else c)
       (filter (\<lambda>c. c \<notin> set (str ''()[]'')) text)"
  unfolding replace_special_map_filter keep_ascii_def map_map comp_def
  using keep_replaced_char by (simp add: Let_def)

section \<open>Lemmas about literals, ranges and slices\<close>

lemma str_eq_iff: "str a = str b \<longleftrightarrow> a = b"
proof -
  have "inj (of_char :: char \<Rightarrow> nat)"
    by (rule injI) simp
  then show ?thesis unfolding str_def by simp
qed

lemma py_slice_chunk:
  assumes "0 \<le> i" and "0 \<le> k"
  shows "py_slice xs i (i + k) = take (nat k) (drop (nat i) xs)"
proof (cases "i \<le> int (length xs)")
  case True
  then have "nat (min (i + k) (int (length xs)) - i) = min (nat k) (length xs - nat i)"
    using assms by (auto simp: min_def)
  then show ?thesis
    using assms True by (simp add: py_slice_def slice_index_def Let_def min_def)
next
  case False
  then show ?thesis
    using assms by (simp add: py_slice_def slice_index_def Let_def min_def)
qed

lemma py_range_pos:
  assumes "0 < k"
  shows "py_range 0 (int n) k = Inr (map (\<lambda>j. int j * k) [0..<(n + nat k - 1) div nat k])"
proof -
  define K where "K = nat k"
  have K: "k = int K" "0 < K" using assms by (simp_all add: K_def)
  have "int n + int K - 1 = int (n + K - 1)" using K(2) by simp
  then have "(int n + int K - 1) div int K = int ((n + K - 1) div K)"
    by (simp only: zdiv_int)
  then have "nat ((int n + k - 1) div k) = (n + nat k - 1) div nat k"
    using K by simp
  then show ?thesis using assms by (simp add: py_range_def)
qed

lemma create_batches_pos:
  assumes "0 < k"
  shows "create_batches rs k =
           Inr (map (\<lambda>j. take (nat k) (drop (j * nat k) rs)) [0..<(length rs + nat k - 1) div nat k])"
proof -
  have "py_slice rs (int j * k) (int j * k + k) = take (nat k) (drop (j * nat k) rs)" for j
    using assms py_slice_chunk [of "int j * k" k rs] by (simp add: nat_mult_distrib)
  then show ?thesis
    using assms by (simp add: create_batches_def py_range_pos)
qed

lemma chunks_concat:
  "concat (map (\<lambda>j. take K (drop (j * K) rs)) [0..<m]) = take (m * K) rs"
proof (induction m)
  case 0
  show ?case by simp
next
  case (Suc m)
  have "take (m * K + K) rs = take (m * K) rs @ take K (drop (m * K) rs)"
    by (rule take_add)
  then show ?case using Suc by (simp add: add.commute)
qed

lemma chunks_cover:
  fixes n K :: nat
  assumes K: "0 < K"
  shows "n \<le> ((n + K - 1) div K) * K"
proof -
  have "n + K - 1 = ((n + K - 1) div K) * K + (n + K - 1) mod K" by simp
  moreover have "(n + K - 1) mod K < K" using K by simp
  ultimately show ?thesis using K by linarith
qed

lemma chunks_full:
  fixes n K j :: nat
  assumes "0 < K" and "Suc j < (n + K - 1) div K"
  shows "Suc j * K \<le> n"
proof -
  have "Suc (Suc j) \<le> (n + K - 1) div K" using assms(2) by simp
  then have "Suc (Suc j) * K \<le> ((n + K - 1) div K) * K" by (rule mult_le_mono1)
  also have "\<dots> \<le> n + K - 1" by simp
  finally have "Suc j * K + K \<le> n + K - 1" by simp
  then show ?thesis using assms(1) by linarith
qed

section \<open>Lemmas about the record builder\<close>

lemma slide_records_missing_number:
  assumes "sl \<in> set slides" and "slide_number sl = None"
  shows "slide_records pdf_id fname dm slides records = Inl (KeyError (str ''slide_number''))"
  using assms
proof (induction slides arbitrary: records)
  case Nil
  then show ?case by simp
next
  case (Cons s slides)
  show ?case
  proof (cases "slide_number s")
    case None
    then show ?thesis by (simp add: slide_record_def require_def)
  next
    case (Some n)
    then have "sl \<in> set slides" using Cons.prems by auto
    then show ?thesis using Cons.IH Cons.prems(2) Some by (simp add: slide_record_def require_def)
  qed
qed

lemma transform_missing_number:
  assumes "slide_data data = Some slides" and "sl \<in> set slides" and "slide_number sl = None"
  shows "transform_metadata_to_records now data =
           (case deck_metadata data of
              None \<Rightarrow> Inl (KeyError (str ''deck_metadata''))
            | Some dm \<Rightarrow>
                (case filename dm of
                   None \<Rightarrow> Inl (KeyError (str ''filename''))
                 | Some fname \<Rightarrow> Inl (KeyError (str ''slide_number''))))"
  using assms slide_records_missing_number [OF assms(2,3)]
  by (simp add: transform_metadata_to_records_def require_def Let_def split: option.splits)

section \<open>Evaluating the record builder\<close>

lemmas [py_eval] = str_eq_iff make_pdf_id_def transform_metadata_to_records_def require_def
  slide_record_def deck_record_def get_or_def

lemma sanitize_db: "sanitize_id (str ''DB (Insurance) 2025.pdf'') = str ''db_insurance_2025''"
  by (simp add: py_eval)

lemma pdf_id_db: "make_pdf_id now (str ''DB (Insurance) 2025.pdf'') = str ''db_insurance_2025''"
  unfolding make_pdf_id_def sanitize_db by (simp add: str_def)

lemma format_1_2: "format_03d 1 = str ''001''" "format_03d 2 = str ''002''"
  by (simp_all add: py_eval)

lemma str_append: "str a @ str b = str (a @ b)"
  by (simp add: str_def)

section \<open>Lemmas about the validators\<close>








section \<open>Evaluating the validators\<close>

lemmas [py_eval] = validate_record_def record_errors_def validate_pinecone_records_def
  required_fields_def falsy_get_def is_str_get_def strip_def py_isspace_def spec_record_ok_def
  invalid_report_def process_metadata_file_def build_slide_content_def build_deck_content_def

section \<open>Evaluating the merge\<close>

lemmas [py_eval] = merge_results_unified_def merge_results_def merge_hits_def doc_all_fields_def
  doc_known_fields_def getitem_def sorted_by_score_def has_number_score_def has_text_score_def
  score_number_def score_text_def

section \<open>The two loops of the merge\<close>








section \<open>The merged document of an id found by both indexes\<close>







section \<open>Claims about the identifier sanitizer\<close>

text \<open>
  C4, as stated: the sanitizer replaces each whitespace character and each of
  \<open>( ) [ ] -\<close> with an underscore. On \<open>a(b\<close> the code deletes the parenthesis instead:
  the replacement step yields \<open>ab\<close> where the stated step yields \<open>a_b\<close>, and the sanitized
  identifier is \<open>ab\<close>.
\<close>

theorem replace_special_counterexample:
  "replace_special (str ''a(b'') = str ''ab''
   \<and> spec_replace_special (str ''a(b'') = str ''a_b''
   \<and> sanitize_id (str ''a(b'') = str ''ab''"
  by (simp add: spec_replace_special_def py_eval)

text \<open>
  C4, amended: for every input string, the replacement step of \<open>sanitize_id\<close> deletes
  each \<open>(\<close>, \<open>)\<close>, \<open>[\<close> and \<open>]\<close> and replaces each space and each \<open>-\<close> with an
  underscore; together with the next step, every remaining character that is whitespace,
  \<open>-\<close> or not an ASCII letter or digit has become an underscore.
\<close>

theorem replace_special_by_design:
  "replace_special text =
     map (\<lambda>c. if c = ord CHR '' '' \<or> c = ord CHR ''-'' then ord CHR ''_'' else c)
       (filter (\<lambda>c. c \<notin> set (str ''()[]'')) text)
   \<and> keep_ascii (replace_special text) =
     map (\<lambda>c. if py_isspace c \<or> c = ord CHR ''-'' \<or> \<not> (isascii c \<and> ascii_isalnum c)
              then ord CHR ''_'' else c)
       (filter (\<lambda>c. c \<notin> set (str ''()[]'')) text)"
  using replace_special_map_filter keep_replace_special by simp

theorem replace_special_by_design_witness:
  "replace_special (str ''a (b)-[c]'' @ [9, 54620]) = str ''a_b_c'' @ [9, 54620]
   \<and> keep_ascii (replace_special (str ''a (b)-[c]'' @ [9, 54620])) = str ''a_b_c__''"
proof -
  have 1: "filter (\<lambda>c. c \<notin> set (str ''()[]'')) (str ''a (b)-[c]'' @ [9, 54620])
             = str ''a b-c'' @ [9, 54620]"
    by (simp add: py_eval)
  have 2: "map (\<lambda>c. if c = ord CHR '' '' \<or> c = ord CHR ''-'' then ord CHR ''_'' else c)
             (str ''a b-c'' @ [9, 54620]) = str ''a_b_c'' @ [9, 54620]"
    by (simp add: py_eval)
  have 3: "map (\<lambda>c. if py_isspace c \<or> c = ord CHR ''-'' \<or> \<not> (isascii c \<and> ascii_isalnum c)
              then ord CHR ''_'' else c) (str ''a b-c'' @ [9, 54620]) = str ''a_b_c__''"
    by (simp add: py_eval)
  note t = replace_special_by_design [of "str ''a (b)-[c]'' @ [9, 54620]", unfolded 1 2 3]
  show ?thesis by (rule t)
qed

text \<open>
  C9: the identifier sanitizer is idempotent. It holds for every input string, so in
  particular for every ASCII-safe one.
\<close>

theorem sanitize_id_idempotent:
  "sanitize_id (sanitize_id x) = sanitize_id x"
  by (rule sanitize_id_fixed) (rule sanitize_id_clean)

text \<open>
  C10: for every input string, the output of each sanitizer (\<open>sanitize_id\<close>, and
  \<open>sanitize_pdf_id\<close> whatever the file stem is) contains only lowercase ASCII letters,
  ASCII digits and underscores, neither begins nor ends with an underscore, and contains
  no two consecutive underscores.
\<close>

theorem sanitizer_output_clean:
  "clean_id (sanitize_id x) \<and> clean_id (sanitize_pdf_id stem x)"
  using sanitize_id_clean sanitize_pdf_id_clean by simp

theorem sanitizer_output_clean_witness:
  "sanitize_id (str ''My Deck-2025 (v2).pdf'') = str ''my_deck_2025_v2''
   \<and> clean_id (str ''my_deck_2025_v2'')
   \<and> list_all allowed_char (str ''my_deck_2025_v2'')"
proof -
  have e: "sanitize_id (str ''My Deck-2025 (v2).pdf'') = str ''my_deck_2025_v2''"
    by (simp add: py_eval)
  have c: "clean_id (str ''my_deck_2025_v2'')"
    using sanitizer_output_clean [of "str ''My Deck-2025 (v2).pdf''" id] unfolding e by simp
  then show ?thesis using e by (simp add: clean_id_def list_all_iff)
qed

section \<open>Claims about the batcher\<close>

text \<open>
  C7: for every record sequence and every batch size \<open>k > 0\<close>, \<open>create_batches\<close>
  returns batches whose concatenation is the input sequence, every batch has at most
  \<open>k\<close> records, every batch but the last has exactly \<open>k\<close>, and 97 records with
  \<open>k = 96\<close> give two batches of sizes 96 and 1.
\<close>

theorem create_batches_partition:
  assumes "0 < k"
  shows "\<exists>batches. create_batches records k = Inr batches
           \<and> concat batches = records
           \<and> (\<forall>b \<in> set batches. int (length b) \<le> k)
           \<and> (\<forall>j. Suc j < length batches \<longrightarrow> int (length (batches ! j)) = k)
           \<and> (length records = 97 \<and> k = 96 \<longrightarrow> map length batches = [96, 1])"
proof -
  define K where "K = nat k"
  define m where "m = (length records + K - 1) div K"
  define batches where "batches = map (\<lambda>j. take K (drop (j * K) records)) [0..<m]"
  have K: "0 < K" "k = int K" using assms by (simp_all add: K_def)
  have 1: "create_batches records k = Inr batches"
    using create_batches_pos [OF assms] by (simp add: batches_def m_def K_def)
  have "length records \<le> m * K" unfolding m_def using K(1) by (rule chunks_cover)
  then have 2: "concat batches = records"
    by (simp add: batches_def chunks_concat)
  have 3: "\<forall>b \<in> set batches. int (length b) \<le> k"
    by (auto simp: batches_def K(2))
  have 4: "int (length (batches ! j)) = k" if "Suc j < length batches" for j
  proof -
    have j: "Suc j < m" using that by (simp add: batches_def)
    then have "Suc j * K \<le> length records"
      unfolding m_def using K(1) chunks_full by blast
    then have "K \<le> length records - j * K" by simp
    then show ?thesis using j by (simp add: batches_def K(2))
  qed
  have 5: "map length batches = [96, 1]" if "length records = 97 \<and> k = 96"
  proof -
    have "K = 96" using that by (simp add: K_def)
    moreover from this have "m = 2" using that by (simp add: m_def)
    moreover have "[0..<2] = [0, Suc 0]" by (simp add: upt_rec)
    ultimately show ?thesis using that by (simp add: batches_def)
  qed
  show ?thesis
  proof (intro exI conjI)
    show "create_batches records k = Inr batches" by (rule 1)
    show "concat batches = records" by (rule 2)
    show "\<forall>b \<in> set batches. int (length b) \<le> k" by (rule 3)
    show "\<forall>j. Suc j < length batches \<longrightarrow> int (length (batches ! j)) = k"
      using 4 by simp
    show "length records = 97 \<and> k = 96 \<longrightarrow> map length batches = [96, 1]"
      using 5 by simp
  qed
qed

theorem create_batches_partition_witness:
  "(0::int) < 96
   \<and> create_batches [0..<97] 96 = Inr [[0..<96], [96]]
   \<and> concat [[0..<96], [96]] = [0..<97]
   \<and> map length [[0..<96], [96::nat]] = [96, 1]"
proof -
  have h: "(0::int) < 96" by simp
  obtain batches where b: "create_batches [0..<97] 96 = Inr batches" "concat batches = [0..<97]"
      "map length batches = [96, 1]"
    using create_batches_partition [OF h, of "[0..<97]"] by auto
  then obtain b1 b2 where bb: "batches = [b1, b2]" "length b1 = 96" "length b2 = 1"
    by (auto simp: map_eq_Cons_conv)
  have "[0..<97] = [0..<96] @ [96]" by (simp add: upt_rec [of 96 97] upt_add_eq_append [of 0 96 1, simplified])
  then have "b1 @ b2 = [0..<96] @ [96]" using b(2) bb(1) by simp
  then have "b1 = [0..<96] \<and> b2 = [96]" using bb(2) by simp
  then show ?thesis using b bb h by simp
qed

text \<open>
  C5, as stated: a batch size that is not greater than zero makes the batching fail. With
  the batch size \<open>-1\<close> the code raises nothing and returns no batch at all.
\<close>

theorem create_batches_negative_counterexample:
  "create_batches [1::nat] (- 1) = Inr []"
  by (simp add: create_batches_def py_range_def)

text \<open>
  C5, amended: \<open>create_batches\<close> raises \<open>ValueError\<close> (from \<open>range\<close>) when the batch
  size is zero, returns the empty list of batches without raising when it is negative,
  and returns batches without raising for every batch size greater than zero.
\<close>

theorem create_batches_by_size:
  "(k = 0 \<longrightarrow> create_batches records k = Inl ValueError)
   \<and> (k < 0 \<longrightarrow> create_batches records k = Inr [])
   \<and> (0 < k \<longrightarrow> (\<exists>batches. create_batches records k = Inr batches))"
proof -
  have "nat ((- int (length records) - k - 1) div - k) = 0" if "k < 0"
  proof (cases "0 \<le> - int (length records) - k - 1")
    case True
    moreover have "- int (length records) - k - 1 < - k" by simp
    ultimately have "(- int (length records) - k - 1) div - k = 0"
      by (rule div_pos_pos_trivial)
    then show ?thesis by simp
  next
    case False
    then have "- int (length records) - k - 1 < 0" by simp
    moreover have "0 < - k" using that by simp
    ultimately have "(- int (length records) - k - 1) div - k < 0"
      by (rule div_neg_pos_less0)
    then show ?thesis by simp
  qed
  then show ?thesis
    using create_batches_pos [of k records] by (auto simp: create_batches_def py_range_def)
qed

theorem create_batches_by_size_witness:
  "create_batches [1::nat, 2, 3] 0 = Inl ValueError
   \<and> create_batches [1::nat, 2, 3] (- 2) = Inr []
   \<and> create_batches [1::nat, 2, 3] 2 = Inr [[1, 2], [3]]"
proof -
  have "create_batches [1::nat, 2, 3] 2 = Inr [[1, 2], [3]]" by code_simp
  then show ?thesis
    using create_batches_by_size [of 0 "[1::nat, 2, 3]"] create_batches_by_size [of "- 2" "[1::nat, 2, 3]"]
      create_batches_by_size [of 2 "[1::nat, 2, 3]"]
    by simp
qed

section \<open>Claims about the record builder\<close>

text \<open>
  C6: for every document input that contains a slide without a \<open>slide_number\<close>,
  building the records raises (a \<open>KeyError\<close>, Python's exception for the missing field;
  it names \<open>slide_number\<close> whenever the deck metadata and its file name are present) and
  returns no record at all, and \<open>process_metadata_file\<close> fails without reporting or
  writing any batch.
\<close>

theorem missing_slide_number_fails:
  assumes "slide_data data = Some slides" and "sl \<in> set slides" and "slide_number sl = None"
  shows "(\<exists>k. transform_metadata_to_records now data = Inl (KeyError k))
         \<and> (\<forall>dm fname. deck_metadata data = Some dm \<and> filename dm = Some fname
              \<longrightarrow> transform_metadata_to_records now data = Inl (KeyError (str ''slide_number'')))
         \<and> process_metadata_file now data
              = \<lparr>succeeded = False, invalid_lines = [], batch_files = []\<rparr>"
proof -
  note t = transform_missing_number [OF assms, of now]
  have 1: "\<exists>k. transform_metadata_to_records now data = Inl (KeyError k)"
    unfolding t by (simp split: option.splits)
  have 2: "\<forall>dm fname. deck_metadata data = Some dm \<and> filename dm = Some fname
              \<longrightarrow> transform_metadata_to_records now data = Inl (KeyError (str ''slide_number''))"
    unfolding t by simp
  obtain k where "transform_metadata_to_records now data = Inl (KeyError k)" using 1 by blast
  then have 3: "process_metadata_file now data
              = \<lparr>succeeded = False, invalid_lines = [], batch_files = []\<rparr>"
    by (simp add: process_metadata_file_def)
  show ?thesis using 1 2 3 by simp
qed

theorem missing_slide_number_fails_witness:
  "transform_metadata_to_records (str ''20250101_000000'')
       \<lparr>deck_metadata = Some example_deck, slide_data = Some [example_slide (Some 1), example_slide None]\<rparr>
     = Inl (KeyError (str ''slide_number''))
   \<and> process_metadata_file (str ''20250101_000000'')
       \<lparr>deck_metadata = Some example_deck, slide_data = Some [example_slide (Some 1), example_slide None]\<rparr>
     = \<lparr>succeeded = False, invalid_lines = [], batch_files = []\<rparr>"
  using missing_slide_number_fails [of
      "\<lparr>deck_metadata = Some example_deck, slide_data = Some [example_slide (Some 1), example_slide None]\<rparr>"
      "[example_slide (Some 1), example_slide None]" "example_slide None" "str ''20250101_000000''"]
  by (simp add: example_deck_def example_slide_def)

text \<open>
  C8: for the document whose file name is \<open>DB (Insurance) 2025.pdf\<close>, with two slides
  numbered 1 and 2 (whatever its other fields are), the sanitized id is
  \<open>db_insurance_2025\<close> and the record builder returns exactly three records, whose ids
  are \<open>db_insurance_2025_meta\<close>, \<open>db_insurance_2025_slide_001\<close> and
  \<open>db_insurance_2025_slide_002\<close>, in that order.
\<close>

theorem db_insurance_example:
  "sanitize_id (str ''DB (Insurance) 2025.pdf'') = str ''db_insurance_2025''
   \<and> (\<exists>records info.
        transform_metadata_to_records now
          \<lparr>deck_metadata = Some (dm\<lparr>filename := Some (str ''DB (Insurance) 2025.pdf'')\<rparr>),
           slide_data = Some [s1\<lparr>slide_number := Some 1\<rparr>, s2\<lparr>slide_number := Some 2\<rparr>]\<rparr>
          = Inr (records, info)
        \<and> info_pdf_id info = str ''db_insurance_2025''
        \<and> map (\<lambda>r. r (str ''_id'')) records =
            [Some (VStr (str ''db_insurance_2025_meta'')),
             Some (VStr (str ''db_insurance_2025_slide_001'')),
             Some (VStr (str ''db_insurance_2025_slide_002''))])"
  by (simp add: sanitize_db transform_metadata_to_records_def require_def pdf_id_db
      slide_record_def deck_record_def format_1_2 str_append str_eq_iff Let_def)

theorem db_insurance_example_witness:
  "map_sum id (\<lambda>(records, info). (info_pdf_id info, map (\<lambda>r. r (str ''_id'')) records))
     (transform_metadata_to_records (str ''20250101_000000'')
        \<lparr>deck_metadata = Some example_deck,
         slide_data = Some [example_slide (Some 1), example_slide (Some 2)]\<rparr>)
   = Inr (str ''db_insurance_2025'',
          [Some (VStr (str ''db_insurance_2025_meta'')),
           Some (VStr (str ''db_insurance_2025_slide_001'')),
           Some (VStr (str ''db_insurance_2025_slide_002''))])"
proof -
  have d: "example_deck\<lparr>filename := Some (str ''DB (Insurance) 2025.pdf'')\<rparr> = example_deck"
    by (simp add: example_deck_def)
  have s: "(example_slide (Some 1))\<lparr>slide_number := Some 1\<rparr> = example_slide (Some 1)"
      "(example_slide (Some 2))\<lparr>slide_number := Some 2\<rparr> = example_slide (Some 2)"
    by (simp_all add: example_slide_def)
  note t = db_insurance_example [of "str ''20250101_000000''" example_deck
      "example_slide (Some 1)" "example_slide (Some 2)", unfolded d s]
  then show ?thesis by auto
qed

section \<open>Claims about record validation\<close>




section \<open>Claims about the merge\<close>




section \<open>Claims about the cascading search\<close>

text \<open>
  C2, as stated: when the merge produces no document, the search never invokes the
  reranker. With indexes that find nothing, \<open>cascading_search\<close> still calls the reranker,
  with no documents and \<open>top_n = 0\<close>.
\<close>

theorem cascading_search_empty_counterexample:
  "merge_results_unified [] [] = Inr []
   \<and> fst (cascading_search empty_services (str ''query'') (str ''global'') None 20 5)
       = [DenseSearch (str ''global'') \<lparr>sq_top_k = 20, sq_text = str ''query'', sq_filter = None\<rparr>,
          SparseSearch (str ''global'') \<lparr>sq_top_k = 20, sq_text = str ''query'', sq_filter = None\<rparr>,
          Rerank \<lparr>rr_model = str ''bge-reranker-v2-m3'', rr_query = str ''query'',
                  rr_documents = [], rr_rank_fields = [str ''content''], rr_top_n = 0,
                  rr_return_documents = True, rr_truncate = str ''END''\<rparr>]"
  by (simp add: cascading_search_def empty_services_def merge_results_unified_def merge_hits_def
      sorted_by_score_def Let_def)

text \<open>
  C2, amended: for every query whose two index searches and merge succeed,
  \<open>cascading_search\<close> invokes the external reranker exactly once, after the two searches,
  with the merged documents and \<open>top_n = min(rerank_top_n, len(merged))\<close>, and returns
  what the reranker returns; when the merged set is empty the reranker is still invoked,
  with no documents and \<open>top_n = min(rerank_top_n, 0)\<close>.
\<close>

theorem cascading_search_always_reranks:
  assumes "q = \<lparr>sq_top_k = top_k, sq_text = query,
                sq_filter = (if filters \<noteq> None \<and> filters \<noteq> Some [] then filters else None)\<rparr>"
    and "dense_search pc namespace q = Inr dense_hits"
    and "sparse_search pc namespace q = Inr sparse_hits"
    and "merge_results_unified dense_hits sparse_hits = Inr merged"
    and "request = \<lparr>rr_model = str ''bge-reranker-v2-m3'', rr_query = query,
                    rr_documents = merged, rr_rank_fields = [str ''content''],
                    rr_top_n = min rerank_top_n (int (length merged)),
                    rr_return_documents = True, rr_truncate = str ''END''\<rparr>"
  shows "cascading_search pc query namespace filters top_k rerank_top_n
           = ([DenseSearch namespace q, SparseSearch namespace q, Rerank request], rerank pc request)
         \<and> (merged = [] \<longrightarrow> rr_documents request = [] \<and> rr_top_n request = min rerank_top_n 0)"
  using assms by (simp add: cascading_search_def Let_def)

theorem cascading_search_always_reranks_witness:
  "cascading_search empty_services (str ''query'') (str ''global'') None 20 5
     = ([DenseSearch (str ''global'') \<lparr>sq_top_k = 20, sq_text = str ''query'', sq_filter = None\<rparr>,
         SparseSearch (str ''global'') \<lparr>sq_top_k = 20, sq_text = str ''query'', sq_filter = None\<rparr>,
         Rerank \<lparr>rr_model = str ''bge-reranker-v2-m3'', rr_query = str ''query'',
                 rr_documents = [], rr_rank_fields = [str ''content''], rr_top_n = 0,
                 rr_return_documents = True, rr_truncate = str ''END''\<rparr>],
        Inr [])"
proof -
  have m: "merge_results_unified [] [] = Inr []"
    by (simp add: merge_results_unified_def merge_hits_def sorted_by_score_def)
  note t = cascading_search_always_reranks [of
      "\<lparr>sq_top_k = 20, sq_text = str ''query'', sq_filter = None\<rparr>" 20 "str ''query''" None
      empty_services "str ''global''" "[]" "[]" "[]"
      "\<lparr>rr_model = str ''bge-reranker-v2-m3'', rr_query = str ''query'',
        rr_documents = [], rr_rank_fields = [str ''content''], rr_top_n = 0,
        rr_return_documents = True, rr_truncate = str ''END''\<rparr>" 5]
  have "rerank empty_services \<lparr>rr_model = str ''bge-reranker-v2-m3'', rr_query = str ''query'',
        rr_documents = [], rr_rank_fields = [str ''content''], rr_top_n = 0,
        rr_return_documents = True, rr_truncate = str ''END''\<rparr> = Inr []"
    by (simp add: empty_services_def)
  then show ?thesis using t m by (simp add: empty_services_def)
qed

end
